theory Spec2Isabelle
  imports Main "HOL-Library.AList" "HOL-Library.Multiset"
begin

section \<open>Strings, exceptions and JSON values\<close>

text \<open>
  A Python \<open>str\<close> is a sequence of Unicode code points, and \<open>len\<close>, indexing and the
  \<open>re\<close> module all work on code points. A \<open>str\<close> is therefore modelled as a list of
  natural numbers (one per code point); \<open>py\<close> turns an ASCII literal into such a list.
\<close>

type_synonym pystr = "nat list"

definition py :: "string \<Rightarrow> pystr" where
  "py s = map of_char s"

text \<open>
  Exceptions are values. \<open>HTTPException\<close> carries \<open>status_code\<close> and \<open>detail\<close>.
  \<open>JWTError\<close> stands for python-jose's \<open>JWTError\<close> and its subclasses
  (\<open>JWTClaimsError\<close>, \<open>ExpiredSignatureError\<close>), which one \<open>except JWTError\<close>
  clause catches alike. \<open>PyError\<close> stands for any other exception (an upstream
  failure of the LLM client, for instance), with its message.
\<close>

datatype exn =
    HTTPException nat pystr
  | JWTError
  | ValueError
  | TypeError
  | OverflowError
  | KeyError
  | PyError pystr

text \<open>
  The values \<open>json.loads\<close> can return. A Python \<open>dict\<close> is an association list in
  insertion order; \<open>map_of\<close> looks a key up. A float is \<open>m * 2 ^ e\<close>, a NaN or an
  infinity (with its sign); no claim depends on floats.
\<close>

datatype pyfloat = Finite int int | NaN | Infinity bool

datatype json =
    JNull
  | JBool bool
  | JInt int
  | JFloat pyfloat
  | JStr pystr
  | JList "json list"
  | JDict "(pystr \<times> json) list"

text \<open>\<open>d.setdefault(k, v)\<close>: the dict is unchanged when \<open>k\<close> is already a key.\<close>

definition setdefault :: "pystr \<Rightarrow> json \<Rightarrow> (pystr \<times> json) list \<Rightarrow> (pystr \<times> json) list" where
  "setdefault k v d = (if map_of d k = None then d @ [(k, v)] else d)"

section \<open>The password policy (auth.py)\<close>

subsection \<open>The fragment of Python's \<open>re\<close> that the pattern uses\<close>

text \<open>
  \<open>validate_password\<close> calls \<open>re.match\<close> with no flags on the pattern
  \<^verbatim>\<open>^(?=.*[0-9])(?=.*[a-z])(?=.*[A-Z])(?=.*[@#$%^&+=!]).{8,}$\<close>.
  The pattern is transcribed constructor by constructor into the datatype \<open>regex\<close>, and
  \<open>ends r s i\<close> lists, in backtracking order, every position at which a match of \<open>r\<close>
  that starts at position \<open>i\<close> of \<open>s\<close> can end. Without flags, \<open>.\<close> matches any
  character except the newline (code point 10), \<open>^\<close> matches only at position 0, and
  \<open>$\<close> matches at the end of the string and just before a newline that is the last
  character of the string.
\<close>

datatype cls = Dot | Range nat nat | OneOf "nat list"

fun cls_ok :: "cls \<Rightarrow> nat \<Rightarrow> bool" where
  "cls_ok Dot c = (c \<noteq> 10)"
| "cls_ok (Range lo hi) c = (lo \<le> c \<and> c \<le> hi)"
| "cls_ok (OneOf cs) c = (c \<in> set cs)"

datatype regex =
    Bol
  | Eol
  | Lookahead regex
  | Class cls
  | AtLeast nat cls
  | Seq regex regex

fun ends :: "regex \<Rightarrow> pystr \<Rightarrow> nat \<Rightarrow> nat list" where
  "ends Bol s i = (if i = 0 then [i] else [])"
| "ends Eol s i =
     (if i = length s \<or> (Suc i = length s \<and> s ! i = 10) then [i] else [])"
| "ends (Lookahead r) s i = (if ends r s i = [] then [] else [i])"
| "ends (Class c) s i = (if i < length s \<and> cls_ok c (s ! i) then [Suc i] else [])"
| "ends (AtLeast n c) s i =
     (let k = length (takeWhile (cls_ok c) (drop i s))
      in map (\<lambda>m. i + m) (rev [n ..< Suc k]))"
| "ends (Seq r1 r2) s i = concat (map (ends r2 s) (ends r1 s i))"

text \<open>\<open>re.match(pattern, s)\<close> is truthy when some match starts at position 0.\<close>

definition re_match :: "regex \<Rightarrow> pystr \<Rightarrow> bool" where
  "re_match r s = (ends r s 0 \<noteq> [])"

definition lookahead_any :: "cls \<Rightarrow> regex" where
  "lookahead_any c = Lookahead (Seq (AtLeast 0 Dot) (Class c))"

definition special_chars :: pystr where
  "special_chars = py ''@#$%^&+=!''"

definition password_pattern :: regex where
  "password_pattern =
     Seq Bol
    (Seq (lookahead_any (Range 48 57))
    (Seq (lookahead_any (Range 97 122))
    (Seq (lookahead_any (Range 65 90))
    (Seq (lookahead_any (OneOf special_chars))
    (Seq (AtLeast 8 Dot) Eol)))))"

subsection \<open>\<open>validate_password\<close>\<close>

text \<open>The detail string of the policy error; code point 8805 is the sign \<open>\<ge>\<close>.\<close>

definition policy_detail :: pystr where
  "policy_detail = py ''Password must be '' @ [8805] @
     py ''8 chars, include 1 uppercase, 1 lowercase, 1 number, 1 special character (@#$%^&+=!)''"

definition validate_password :: "pystr \<Rightarrow> exn + unit" where
  "validate_password password =
     (if \<not> re_match password_pattern password
      then Inl (HTTPException 400 policy_detail)
      else Inr ())"

text \<open>
  The policy in the words of the detail string: at least 8 characters, a digit, a
  lowercase letter, an uppercase letter and one of the special characters.
\<close>

definition policy_in_words :: "pystr \<Rightarrow> bool" where
  "policy_in_words password \<longleftrightarrow>
     8 \<le> length password \<and>
     (\<exists>c \<in> set password. 48 \<le> c \<and> c \<le> 57) \<and>
     (\<exists>c \<in> set password. 97 \<le> c \<and> c \<le> 122) \<and>
     (\<exists>c \<in> set password. 65 \<le> c \<and> c \<le> 90) \<and>
     (\<exists>c \<in> set password. c \<in> set special_chars)"

definition first_line :: "pystr \<Rightarrow> pystr" where
  "first_line s = takeWhile (\<lambda>x. x \<noteq> 10) s"

section \<open>The user registry (models.py, utils.py, auth.py)\<close>

record UserCreate =
  username :: pystr
  email :: pystr
  password :: pystr

record UserLogin =
  email :: pystr
  password :: pystr

text \<open>
  A document of the \<open>users\<close> collection has the three fields of \<open>UserInDB\<close> (and
  MongoDB's \<open>_id\<close>, which \<open>UserInDB(**user)\<close> ignores), so one record serves for both.
  The collection is the list of its documents in insertion order.
\<close>

record UserInDB =
  username :: pystr
  email :: pystr
  hashed_password :: pystr

text \<open>
  passlib's bcrypt context is an external library: \<open>pwd_hash\<close> stands for
  \<open>pwd_context.hash\<close> (with the salt it draws) and \<open>pwd_verify\<close> for
  \<open>pwd_context.verify\<close>.
\<close>

record pwd_context =
  pwd_hash :: "pystr \<Rightarrow> pystr"
  pwd_verify :: "pystr \<Rightarrow> pystr \<Rightarrow> bool"

definition hash_password :: "pwd_context \<Rightarrow> pystr \<Rightarrow> pystr" where
  "hash_password ctx password' = pwd_hash ctx password'"


text \<open>\<open>users_collection.find_one({"email": e})\<close> and \<open>insert_one\<close>.\<close>

definition find_one_email :: "UserInDB list \<Rightarrow> pystr \<Rightarrow> UserInDB option" where
  "find_one_email users e = find (\<lambda>d. UserInDB.email d = e) users"

definition insert_one :: "'d list \<Rightarrow> 'd \<Rightarrow> 'd list" where
  "insert_one coll d = coll @ [d]"

text \<open>
  \<open>create_user\<close> returns the response (or the exception raised) together with the
  users collection as it is afterwards.
\<close>

definition create_user ::
  "pwd_context \<Rightarrow> UserInDB list \<Rightarrow> UserCreate \<Rightarrow> (exn + (pystr \<times> pystr) list) \<times> UserInDB list" where
  "create_user ctx users user =
     (case validate_password (UserCreate.password user) of
        Inl e \<Rightarrow> (Inl e, users)
      | Inr _ \<Rightarrow>
          (case find_one_email users (UserCreate.email user) of
             Some _ \<Rightarrow> (Inl (HTTPException 400 (py ''Email already registered'')), users)
           | None \<Rightarrow>
               (let hashed_pw = hash_password ctx (UserCreate.password user);
                    user_doc = \<lparr>UserInDB.username = UserCreate.username user,
                                email = UserCreate.email user,
                                hashed_password = hashed_pw\<rparr>
                in (Inr [(py ''message'', py ''User created successfully'')],
                    insert_one users user_doc))))"


section \<open>Session tokens (utils.py on top of python-jose)\<close>

text \<open>
  \<open>utils.py\<close> calls \<open>jwt.encode\<close> and \<open>jwt.decode\<close> of python-jose. The library is
  modelled as far as these two calls go (release 3.3, HS256, default options): compact
  serialisation in three base64url segments, the HMAC over the first two, and the
  validation of the registered claims. A \<open>bytes\<close> value is a \<open>string\<close> (a list of
  8-bit characters); a token is modelled by its bytes, which is what \<open>jws._load\<close> works
  on after \<open>token.encode("utf-8")\<close>. HMAC-SHA256, the JSON codec and Python's \<open>int()\<close> on
  strings are parameters of the model, collected in the record \<open>jose\<close>:
  \<open>json_dumps\<close> is \<open>json.dumps(x, separators=(",", ":")).encode("utf-8")\<close> and
  \<open>json_loads\<close> is \<open>json.loads(b.decode("utf-8"))\<close>, with \<open>None\<close> for a \<open>ValueError\<close>.
\<close>

record jose =
  hmac_sha256 :: "string \<Rightarrow> string \<Rightarrow> string"
  json_dumps :: "json \<Rightarrow> string"
  json_loads :: "string \<Rightarrow> json option"
  int_of_str :: "pystr \<Rightarrow> int option"

subsection \<open>base64url\<close>

text \<open>
  \<open>base64url_encode\<close> is \<open>base64.urlsafe_b64encode(input).replace(b"=", b"")\<close>: three
  bytes give four characters of the URL-safe alphabet, and no padding is kept.
\<close>

definition urlsafe_char :: "nat \<Rightarrow> char" where
  "urlsafe_char v =
     char_of (if v < 26 then v + 65
              else if v < 52 then v + 71
              else if v < 62 then v - 4
              else if v = 62 then 45 else (95::nat))"

fun b2a_sextets :: "nat list \<Rightarrow> nat list" where
  "b2a_sextets (a # b # c # rest) =
     [a div 4, (a mod 4) * 16 + b div 16, (b mod 16) * 4 + c div 64, c mod 64]
       @ b2a_sextets rest"
| "b2a_sextets [a, b] = [a div 4, (a mod 4) * 16 + b div 16, (b mod 16) * 4]"
| "b2a_sextets [a] = [a div 4, (a mod 4) * 16]"
| "b2a_sextets [] = []"

definition base64url_encode :: "string \<Rightarrow> string" where
  "base64url_encode input = map urlsafe_char (b2a_sextets (map of_char input))"

text \<open>
  \<open>base64url_decode\<close> pads the input with \<open>=\<close> to a multiple of four and calls
  \<open>base64.urlsafe_b64decode\<close>, which maps \<open>-\<close> to \<open>+\<close> and \<open>_\<close> to \<open>/\<close> and hands
  over to \<open>binascii.a2b_base64\<close> in its default, non-strict mode. \<open>b64_table\<close> is the
  decoding table after that translation. \<open>a2b_base64\<close> follows the loop of CPython's
  \<open>binascii.c\<close>: characters outside the alphabet are skipped, a complete padding
  sequence ends the input, the bits left over in the last character are dropped, and
  \<open>None\<close> stands for \<open>binascii.Error\<close>.
\<close>

definition b64_table :: "char \<Rightarrow> nat option" where
  "b64_table ch =
     (let n = (of_char ch :: nat)
      in if 65 \<le> n \<and> n \<le> 90 then Some (n - 65)
         else if 97 \<le> n \<and> n \<le> 122 then Some (n - 71)
         else if 48 \<le> n \<and> n \<le> 57 then Some (n + 4)
         else if n = 43 \<or> n = 45 then Some 62
         else if n = 47 \<or> n = 95 then Some 63
         else None)"

fun a2b_base64 :: "string \<Rightarrow> nat \<Rightarrow> nat \<Rightarrow> nat \<Rightarrow> string option" where
  "a2b_base64 [] quad_pos leftchar pads = (if quad_pos \<noteq> 0 then None else Some [])"
| "a2b_base64 (ch # rest) quad_pos leftchar pads =
     (if ch = CHR ''='' then
        (if 2 \<le> quad_pos then
           (if 4 \<le> quad_pos + (pads + 1) then Some []
            else a2b_base64 rest quad_pos leftchar (pads + 1))
         else a2b_base64 rest quad_pos leftchar pads)
      else
        (case b64_table ch of
           None \<Rightarrow> a2b_base64 rest quad_pos leftchar pads
         | Some v \<Rightarrow>
             (if quad_pos = 0 then a2b_base64 rest 1 v 0
              else if quad_pos = 1 then
                map_option ((#) (char_of (leftchar * 4 + v div 16)))
                  (a2b_base64 rest 2 (v mod 16) 0)
              else if quad_pos = 2 then
                map_option ((#) (char_of (leftchar * 16 + v div 4)))
                  (a2b_base64 rest 3 (v mod 4) 0)
              else
                map_option ((#) (char_of (leftchar * 64 + v)))
                  (a2b_base64 rest 0 0 0))))"

definition base64url_decode :: "string \<Rightarrow> string option" where
  "base64url_decode input =
     (let rem = length input mod 4;
          padded = (if 0 < rem then input @ replicate (4 - rem) (CHR ''='') else input)
      in a2b_base64 padded 0 0 0)"

subsection \<open>\<open>jwt.encode\<close>\<close>

definition SECRET_KEY :: string where
  "SECRET_KEY = ''your_super_secret_key''"

definition ALGORITHM :: pystr where
  "ALGORITHM = py ''HS256''"

definition ACCESS_TOKEN_EXPIRE_MINUTES :: int where
  "ACCESS_TOKEN_EXPIRE_MINUTES = 60"

text \<open>The JOSE header \<open>{"alg": algorithm, "typ": "JWT"}\<close>, dumped with sorted keys.\<close>

definition jose_header :: "pystr \<Rightarrow> json" where
  "jose_header algorithm = JDict [(py ''alg'', JStr algorithm), (py ''typ'', JStr (py ''JWT''))]"

definition jwt_encode :: "jose \<Rightarrow> (pystr \<times> json) list \<Rightarrow> string \<Rightarrow> pystr \<Rightarrow> string" where
  "jwt_encode lib claims key algorithm =
     (let encoded_header = base64url_encode (json_dumps lib (jose_header algorithm));
          encoded_claims = base64url_encode (json_dumps lib (JDict claims));
          signing_input = encoded_header @ ''.'' @ encoded_claims;
          signature = hmac_sha256 lib key signing_input
      in signing_input @ ''.'' @ base64url_encode signature)"

subsection \<open>\<open>jwt.decode\<close>\<close>

text \<open>\<open>s.split(sep, 1)\<close> and \<open>s.rsplit(sep, 1)\<close>, unpacked into exactly two parts.\<close>

definition split_first :: "char \<Rightarrow> string \<Rightarrow> (string \<times> string) option" where
  "split_first sep s =
     (if sep \<in> set s
      then Some (takeWhile (\<lambda>c. c \<noteq> sep) s, tl (dropWhile (\<lambda>c. c \<noteq> sep) s))
      else None)"

definition split_last :: "char \<Rightarrow> string \<Rightarrow> (string \<times> string) option" where
  "split_last sep s =
     (case split_first sep (rev s) of
        None \<Rightarrow> None
      | Some (a, b) \<Rightarrow> Some (rev b, rev a))"

text \<open>
  \<open>jws._load\<close>: the three segments, of which the header must decode to a JSON object.
  Every failure is a \<open>JWSError\<close>, which \<open>jwt.decode\<close> re-raises as \<open>JWTError\<close>.
\<close>

definition jws_load ::
  "jose \<Rightarrow> string \<Rightarrow> exn + ((pystr \<times> json) list \<times> string \<times> string \<times> string)" where
  "jws_load lib token =
     (case split_last (CHR ''.'') token of
        None \<Rightarrow> Inl JWTError
      | Some (signing_input, crypto_segment) \<Rightarrow>
     (case split_first (CHR ''.'') signing_input of
        None \<Rightarrow> Inl JWTError
      | Some (header_segment, claims_segment) \<Rightarrow>
     (case base64url_decode header_segment of
        None \<Rightarrow> Inl JWTError
      | Some header_data \<Rightarrow>
     (case json_loads lib header_data of
        Some (JDict header) \<Rightarrow>
          (case base64url_decode claims_segment of
             None \<Rightarrow> Inl JWTError
           | Some payload \<Rightarrow>
          (case base64url_decode crypto_segment of
             None \<Rightarrow> Inl JWTError
           | Some signature \<Rightarrow> Inr (header, payload, signing_input, signature)))
      | _ \<Rightarrow> Inl JWTError))))"

text \<open>
  \<open>jws._verify_signature\<close>: the header's \<open>alg\<close> must be one of the allowed algorithms
  (here only HS256), and the signature must equal the HMAC of the signing input.
\<close>

definition verify_signature ::
  "jose \<Rightarrow> string \<Rightarrow> (pystr \<times> json) list \<Rightarrow> string \<Rightarrow> string \<Rightarrow> pystr list \<Rightarrow> exn + unit" where
  "verify_signature lib signing_input header signature key algorithms =
     (case map_of header (py ''alg'') of
        Some (JStr alg) \<Rightarrow>
          (if alg \<notin> set algorithms then Inl JWTError
           else if hmac_sha256 lib key signing_input = signature then Inr ()
           else Inl JWTError)
      | _ \<Rightarrow> Inl JWTError)"

text \<open>
  Python's \<open>int(x)\<close> on a JSON value: a float is truncated towards zero, a NaN gives
  \<open>ValueError\<close> and an infinity \<open>OverflowError\<close>. The validators below catch
  \<open>ValueError\<close> only, so a \<open>TypeError\<close> (for \<open>null\<close>, a list or an object) and an
  \<open>OverflowError\<close> leave \<open>jwt.decode\<close> as they are.
\<close>

fun int_of_float :: "pyfloat \<Rightarrow> exn + int" where
  "int_of_float (Finite m e) =
     Inr (if 0 \<le> e then m * 2 ^ nat e
          else if 0 \<le> m then m div 2 ^ nat (- e)
          else - ((- m) div 2 ^ nat (- e)))"
| "int_of_float NaN = Inl ValueError"
| "int_of_float (Infinity _) = Inl OverflowError"

fun py_int :: "jose \<Rightarrow> json \<Rightarrow> exn + int" where
  "py_int lib (JInt n) = Inr n"
| "py_int lib (JBool b) = Inr (if b then 1 else 0)"
| "py_int lib (JStr s) = (case int_of_str lib s of None \<Rightarrow> Inl ValueError | Some n \<Rightarrow> Inr n)"
| "py_int lib (JFloat f) = int_of_float f"
| "py_int lib JNull = Inl TypeError"
| "py_int lib (JList xs) = Inl TypeError"
| "py_int lib (JDict d) = Inl TypeError"

definition int_claim :: "jose \<Rightarrow> json \<Rightarrow> exn + int" where
  "int_claim lib v = (case py_int lib v of Inl ValueError \<Rightarrow> Inl JWTError | r \<Rightarrow> r)"

text \<open>
  Times are \<open>datetime\<close> values in UTC, counted in microseconds since the epoch;
  \<open>timegm(d.utctimetuple())\<close> drops the microseconds.
\<close>

type_synonym datetime = int

definition timegm :: "datetime \<Rightarrow> int" where
  "timegm d = d div 1000000"

definition timedelta_minutes :: "int \<Rightarrow> int" where
  "timedelta_minutes m = m * 60000000"

definition and_then :: "exn + unit \<Rightarrow> exn + unit \<Rightarrow> exn + unit" where
  "and_then a b = (case a of Inl e \<Rightarrow> Inl e | Inr _ \<Rightarrow> b)"

definition validate_iat :: "jose \<Rightarrow> (pystr \<times> json) list \<Rightarrow> exn + unit" where
  "validate_iat lib claims =
     (case map_of claims (py ''iat'') of
        None \<Rightarrow> Inr ()
      | Some v \<Rightarrow> (case int_claim lib v of Inl e \<Rightarrow> Inl e | Inr _ \<Rightarrow> Inr ()))"

definition validate_nbf :: "jose \<Rightarrow> (pystr \<times> json) list \<Rightarrow> datetime \<Rightarrow> exn + unit" where
  "validate_nbf lib claims utcnow =
     (case map_of claims (py ''nbf'') of
        None \<Rightarrow> Inr ()
      | Some v \<Rightarrow>
          (case int_claim lib v of
             Inl e \<Rightarrow> Inl e
           | Inr nbf \<Rightarrow> (if nbf > timegm utcnow then Inl JWTError else Inr ())))"

definition validate_exp :: "jose \<Rightarrow> (pystr \<times> json) list \<Rightarrow> datetime \<Rightarrow> exn + unit" where
  "validate_exp lib claims utcnow =
     (case map_of claims (py ''exp'') of
        None \<Rightarrow> Inr ()
      | Some v \<Rightarrow>
          (case int_claim lib v of
             Inl e \<Rightarrow> Inl e
           | Inr exp \<Rightarrow> (if exp < timegm utcnow then Inl JWTError else Inr ())))"

text \<open>
  \<open>jwt.decode\<close> is called with no audience and no access token, so a token that carries
  an \<open>aud\<close> or an \<open>at_hash\<close> claim is refused whatever its value; no issuer or subject is
  asked for, so \<open>iss\<close> is not looked at and \<open>sub\<close> and \<open>jti\<close> need only be strings.
\<close>

definition validate_aud :: "(pystr \<times> json) list \<Rightarrow> exn + unit" where
  "validate_aud claims =
     (case map_of claims (py ''aud'') of None \<Rightarrow> Inr () | Some _ \<Rightarrow> Inl JWTError)"

definition validate_str_claim :: "pystr \<Rightarrow> (pystr \<times> json) list \<Rightarrow> exn + unit" where
  "validate_str_claim name claims =
     (case map_of claims name of
        None \<Rightarrow> Inr ()
      | Some (JStr _) \<Rightarrow> Inr ()
      | Some _ \<Rightarrow> Inl JWTError)"

definition validate_at_hash :: "(pystr \<times> json) list \<Rightarrow> exn + unit" where
  "validate_at_hash claims =
     (case map_of claims (py ''at_hash'') of None \<Rightarrow> Inr () | Some _ \<Rightarrow> Inl JWTError)"

definition validate_claims :: "jose \<Rightarrow> (pystr \<times> json) list \<Rightarrow> datetime \<Rightarrow> exn + unit" where
  "validate_claims lib claims utcnow =
     and_then (validate_iat lib claims)
    (and_then (validate_nbf lib claims utcnow)
    (and_then (validate_exp lib claims utcnow)
    (and_then (validate_aud claims)
    (and_then (validate_str_claim (py ''sub'') claims)
    (and_then (validate_str_claim (py ''jti'') claims)
              (validate_at_hash claims))))))"

definition jwt_decode ::
  "jose \<Rightarrow> string \<Rightarrow> string \<Rightarrow> pystr list \<Rightarrow> datetime \<Rightarrow> exn + (pystr \<times> json) list" where
  "jwt_decode lib token key algorithms utcnow =
     (case jws_load lib token of
        Inl e \<Rightarrow> Inl e
      | Inr (header, payload, signing_input, signature) \<Rightarrow>
     (case verify_signature lib signing_input header signature key algorithms of
        Inl e \<Rightarrow> Inl e
      | Inr _ \<Rightarrow>
     (case json_loads lib payload of
        Some (JDict claims) \<Rightarrow>
          (case validate_claims lib claims utcnow of
             Inl e \<Rightarrow> Inl e
           | Inr _ \<Rightarrow> Inr claims)
      | _ \<Rightarrow> Inl JWTError)))"

subsection \<open>\<open>create_access_token\<close> and \<open>decode_access_token\<close>\<close>

text \<open>
  \<open>data\<close> is a \<open>Dict[str, str]\<close>. The expiry is put under \<open>exp\<close> as a \<open>datetime\<close>, which
  \<open>jwt.encode\<close> turns into the integer \<open>timegm(expire.utctimetuple())\<close> before it
  serialises the claims. A missing or zero \<open>expires_delta\<close> is falsy and gives the
  default of 60 minutes.
\<close>

definition create_access_token ::
  "jose \<Rightarrow> (pystr \<times> pystr) list \<Rightarrow> int option \<Rightarrow> datetime \<Rightarrow> string" where
  "create_access_token lib data expires_delta utcnow =
     (let to_encode = map (\<lambda>(k, v). (k, JStr v)) data;
          expire = utcnow + (case expires_delta of
                               None \<Rightarrow> timedelta_minutes ACCESS_TOKEN_EXPIRE_MINUTES
                             | Some d \<Rightarrow> if d \<noteq> 0 then d
                                         else timedelta_minutes ACCESS_TOKEN_EXPIRE_MINUTES);
          to_encode = AList.update (py ''exp'') (JInt (timegm expire)) to_encode
      in jwt_encode lib to_encode SECRET_KEY ALGORITHM)"

text \<open>
  \<open>decode_access_token\<close> returns the payload, or \<open>None\<close> when \<open>jwt.decode\<close> raises a
  \<open>JWTError\<close>; any other exception is not caught and leaves the function (\<open>Inl\<close>).
\<close>

definition decode_access_token ::
  "jose \<Rightarrow> string \<Rightarrow> datetime \<Rightarrow> exn + (pystr \<times> json) list option" where
  "decode_access_token lib token utcnow =
     (case jwt_decode lib token SECRET_KEY [ALGORITHM] utcnow of
        Inr payload \<Rightarrow> Inr (Some payload)
      | Inl JWTError \<Rightarrow> Inr None
      | Inl e \<Rightarrow> Inl e)"

section \<open>The HTTP handlers (main.py)\<close>

subsection \<open>\<open>login\<close> and \<open>get_current_user\<close>\<close>



text \<open>\<open>s.split(sep)\<close> on every occurrence of a one-character separator.\<close>

fun split_on :: "'a \<Rightarrow> 'a list \<Rightarrow> 'a list list" where
  "split_on sep [] = [[]]"
| "split_on sep (x # xs) =
     (if x = sep then [] # split_on sep xs
      else (case split_on sep xs of
              l # ls \<Rightarrow> (x # l) # ls
            | [] \<Rightarrow> [[x]]))"

text \<open>
  The \<open>Authorization\<close> header is taken as its bytes. The second element of the split
  exists whenever the header starts with \<open>Bearer\<close> and a space.
\<close>

definition get_current_user :: "jose \<Rightarrow> datetime \<Rightarrow> string \<Rightarrow> exn + (pystr \<times> json) list" where
  "get_current_user lib utcnow authorization =
     (if take 7 authorization \<noteq> ''Bearer '' then Inl (HTTPException 401 (py ''Invalid token''))
      else
        (case split_on (CHR '' '') authorization of
           _ # token # _ \<Rightarrow>
             (case decode_access_token lib token utcnow of
                Inl e \<Rightarrow> Inl e
              | Inr None \<Rightarrow> Inl (HTTPException 401 (py ''Invalid token''))
              | Inr (Some payload) \<Rightarrow>
                  (if map_of payload (py ''email'') = None
                   then Inl (HTTPException 401 (py ''Invalid token''))
                   else Inr payload))
         | _ \<Rightarrow> Inl (PyError (py ''IndexError''))))"

subsection \<open>The history collection\<close>

text \<open>
  A document of \<open>search_history\<close>. The identifier is an \<open>ObjectId\<close> (its bytes) in the
  store and its \<open>str\<close> in the answer of \<open>GET /history\<close>, hence the type parameter. The
  owner is the value of the token's \<open>email\<close> claim; the timestamp is a \<open>datetime\<close>.
\<close>

record 'i history_doc =
  oid :: 'i
  user_email :: json
  concept :: pystr
  level :: pystr
  result :: json
  quiz :: json
  timestamp :: datetime

type_synonym objectid = "nat list"







text \<open>
  \<open>delete_one(filter)\<close> removes the first document that matches the filter and reports
  \<open>deleted_count\<close>.
\<close>

fun delete_one :: "('d \<Rightarrow> bool) \<Rightarrow> 'd list \<Rightarrow> nat \<times> 'd list" where
  "delete_one P [] = (0, [])"
| "delete_one P (d # ds) =
     (if P d then (1, ds)
      else (case delete_one P ds of (n, ds') \<Rightarrow> (n, d # ds')))"

text \<open>\<open>d[k]\<close> on a dict raises \<open>KeyError\<close> for a missing key.\<close>

definition getitem :: "(pystr \<times> json) list \<Rightarrow> pystr \<Rightarrow> exn + json" where
  "getitem d k = (case map_of d k of None \<Rightarrow> Inl KeyError | Some v \<Rightarrow> Inr v)"

subsection \<open>\<open>GET /history\<close> and \<open>DELETE /history/{entry_id}\<close>\<close>




subsection \<open>\<open>POST /generate\<close> and \<open>POST /quiz\<close>\<close>

text \<open>
  What the handlers use from outside: \<open>json.loads\<close> on a \<open>str\<close> (\<open>None\<close> when it
  raises), \<open>str(e)\<close> of an exception, and the three calls of the chat client, each a
  function of the variables of its prompt that gives \<open>message.content\<close> of the first
  choice or the exception raised on the way.
\<close>

record services =
  loads_text :: "pystr \<Rightarrow> json option"
  str_of_exn :: "exn \<Rightarrow> pystr"
  chat_analogy :: "pystr \<Rightarrow> pystr \<Rightarrow> exn + pystr"
  chat_quiz :: "pystr \<Rightarrow> json \<Rightarrow> exn + pystr"
  chat_quiz_again :: "pystr \<Rightarrow> json \<Rightarrow> exn + pystr"

record GenerateRequest =
  concept :: pystr
  level :: pystr

record QuizRequest =
  concept :: pystr
  result :: json

record generate_response =
  concept_received :: pystr
  level :: pystr
  user :: "json option"
  result :: json
  quiz :: json

text \<open>\<open>str.strip()\<close> removes the characters for which \<open>str.isspace\<close> holds at both ends.\<close>

definition isspace :: "nat \<Rightarrow> bool" where
  "isspace c \<longleftrightarrow>
     (9 \<le> c \<and> c \<le> 13) \<or> (28 \<le> c \<and> c \<le> 32) \<or> c = 133 \<or> c = 160 \<or> c = 5760 \<or>
     (8192 \<le> c \<and> c \<le> 8202) \<or> c = 8232 \<or> c = 8233 \<or> c = 8239 \<or> c = 8287 \<or> c = 12288"

definition strip :: "pystr \<Rightarrow> pystr" where
  "strip s = rev (dropWhile isspace (rev (dropWhile isspace s)))"

fun join :: "'a list \<Rightarrow> 'a list list \<Rightarrow> 'a list" where
  "join sep [] = []"
| "join sep [x] = x"
| "join sep (x # y # ys) = x @ sep @ join sep (y # ys)"

text \<open>
  The treatment of a code fence: when the text starts with three backquotes (code
  point 96) and has at least three lines, its first and last lines are dropped.
\<close>

definition strip_fence :: "pystr \<Rightarrow> pystr" where
  "strip_fence s =
     (if take 3 s = [96, 96, 96] then
        (let lines = split_on 10 s
         in if 3 \<le> length lines then join [10] (butlast (tl lines)) else s)
      else s)"

text \<open>
  The parsing of the analogy: \<open>json.loads\<close>, then four \<open>setdefault\<close> calls, all inside
  one \<open>try\<close>. A text that does not parse, and a text that parses to something other
  than an object (which has no \<open>setdefault\<close>), both take the \<open>except\<close> branch.
\<close>

definition degraded_result :: "pystr \<Rightarrow> json" where
  "degraded_result ai_text =
     JDict [(py ''tagline'', JStr []), (py ''analogy'', JStr ai_text),
            (py ''mapping'', JList []), (py ''limitations'', JList [])]"

definition parse_analogy :: "services \<Rightarrow> pystr \<Rightarrow> json" where
  "parse_analogy srv ai_text =
     (case loads_text srv ai_text of
        Some (JDict d) \<Rightarrow>
          JDict (setdefault (py ''limitations'') (JList [])
                (setdefault (py ''mapping'') (JList [])
                (setdefault (py ''analogy'') (JStr [])
                (setdefault (py ''tagline'') (JStr []) d))))
      | _ \<Rightarrow> degraded_result ai_text)"

definition parse_quiz :: "services \<Rightarrow> pystr \<Rightarrow> pystr \<Rightarrow> json" where
  "parse_quiz srv concept' quiz_text =
     (case loads_text srv quiz_text of
        Some quiz_json \<Rightarrow> quiz_json
      | None \<Rightarrow> JDict [(py ''concept'', JStr concept'), (py ''questions'', JList [])])"

text \<open>
  The body of the outer \<open>try\<close> of \<open>generate\<close>, with the collection as it is after
  \<open>insert_one\<close>; \<open>new_id\<close> is the identifier that the insertion gives the document.
\<close>

definition generate_body ::
  "services \<Rightarrow> objectid history_doc list \<Rightarrow> GenerateRequest \<Rightarrow> (pystr \<times> json) list
     \<Rightarrow> datetime \<Rightarrow> objectid \<Rightarrow> exn + (generate_response \<times> objectid history_doc list)" where
  "generate_body srv history_collection req current_user utcnow new_id =
     (let concept' = strip (GenerateRequest.concept req);
          level' = GenerateRequest.level req
      in if concept' = [] then Inl (HTTPException 400 (py ''Concept must not be empty''))
         else
     (case chat_analogy srv concept' level' of
        Inl e \<Rightarrow> Inl e
      | Inr content \<Rightarrow>
     (let ai_json = parse_analogy srv (strip_fence (strip content))
      in
     (case chat_quiz srv concept' ai_json of
        Inl e \<Rightarrow> Inl e
      | Inr quiz_content \<Rightarrow>
     (let quiz_json = parse_quiz srv concept' (strip_fence (strip quiz_content))
      in
     (case getitem current_user (py ''email'') of
        Inl e \<Rightarrow> Inl e
      | Inr owner \<Rightarrow>
          (let history_doc = \<lparr>oid = new_id, user_email = owner, concept = concept',
                              level = level', result = ai_json, quiz = quiz_json,
                              timestamp = utcnow\<rparr>
           in Inr (\<lparr>concept_received = concept', level = level',
                     user = map_of current_user (py ''email''),
                     result = ai_json, quiz = quiz_json\<rparr>,
                   insert_one history_collection history_doc))))))))"

text \<open>
  \<open>generate\<close>: whatever exception leaves the body, the \<open>HTTPException\<close> of the empty
  concept included, is caught by \<open>except Exception\<close> and raised again with status 500.
\<close>

definition generate ::
  "services \<Rightarrow> objectid history_doc list \<Rightarrow> GenerateRequest \<Rightarrow> (pystr \<times> json) list
     \<Rightarrow> datetime \<Rightarrow> objectid \<Rightarrow> (exn + generate_response) \<times> objectid history_doc list" where
  "generate srv history_collection req current_user utcnow new_id =
     (case generate_body srv history_collection req current_user utcnow new_id of
        Inl e \<Rightarrow> (Inl (HTTPException 500 (str_of_exn srv e)), history_collection)
      | Inr (response, coll') \<Rightarrow> (Inr response, coll'))"



section \<open>Example data\<close>




definition user_a :: "(pystr \<times> json) list" where
  "user_a = [(py ''email'', JStr (py ''a@x.com'')), (py ''exp'', JInt 3600)]"

text \<open>
  Services for the examples: a chat client that answers the analogy prompt with plain
  prose, the quiz prompt of \<open>/generate\<close> with \<open>{}\<close> and the quiz prompt of \<open>/quiz\<close>
  with plain prose; a \<open>json.loads\<close> that knows the text \<open>{}\<close> and raises on everything
  else; and a \<open>str\<close> that gives the detail of an \<open>HTTPException\<close>.
\<close>

definition example_services :: services where
  "example_services =
     \<lparr>loads_text = (\<lambda>t. if t = py ''{}'' then Some (JDict []) else None),
      str_of_exn = (\<lambda>e. case e of HTTPException s d \<Rightarrow> d | _ \<Rightarrow> py ''error''),
      chat_analogy = (\<lambda>c l. Inr (py ''  Recursion is a mirror facing a mirror.  '')),
      chat_quiz = (\<lambda>c j. Inr (py ''{}'')),
      chat_quiz_again = (\<lambda>c j. Inr (py ''Sorry, no quiz today.''))\<rparr>"

text \<open>
  A library for the examples: a keyed function of the message with 32 bytes of output in
  the place of HMAC-SHA256, and a JSON codec that knows the two objects of the example,
  the JOSE header and the claims of \<open>a@x.com\<close> (dumped as \<open>header\<close> and \<open>claims\<close>).
\<close>

definition example_jose :: jose where
  "example_jose =
     \<lparr>hmac_sha256 = (\<lambda>k m. take 32 (m @ k @ replicate 32 (CHR ''0''))),
      json_dumps = (\<lambda>j. if j = jose_header ALGORITHM then ''header''
                         else if j = JDict user_a then ''claims'' else ''other''),
      json_loads = (\<lambda>b. if b = ''header'' then Some (jose_header ALGORITHM)
                         else if b = ''claims'' then Some (JDict user_a) else None),
      int_of_str = (\<lambda>s. None)\<rparr>"

section \<open>The password policy: what the pattern accepts\<close>

lemma cls_ok_Dot: "cls_ok Dot = (\<lambda>x. x \<noteq> 10)"
  by (rule ext) simp

lemma concat_nonempty: "concat xss \<noteq> [] \<longleftrightarrow> (\<exists>xs \<in> set xss. xs \<noteq> [])"
  by (induction xss) auto

lemma ends_Seq_nonempty:
  "ends (Seq r1 r2) s i \<noteq> [] \<longleftrightarrow> (\<exists>j \<in> set (ends r1 s i). ends r2 s j \<noteq> [])"
  by (simp add: concat_nonempty)

lemma set_ends_AtLeast:
  "set (ends (AtLeast n c) s i) =
     {i + m | m. n \<le> m \<and> m \<le> length (takeWhile (cls_ok c) (drop i s))}"
  by (auto simp: Let_def less_Suc_eq_le)

lemma ends_Class_nonempty:
  "ends (Class c) s j \<noteq> [] \<longleftrightarrow> j < length s \<and> cls_ok c (s ! j)"
  by simp

lemma ends_Eol_nonempty:
  "ends Eol s j \<noteq> [] \<longleftrightarrow> j = length s \<or> (Suc j = length s \<and> s ! j = 10)"
  by simp

lemma ends_Lookahead_nonempty:
  "ends (Lookahead r) s j \<noteq> [] \<longleftrightarrow> ends r s j \<noteq> []"
  by simp

text \<open>
  A lookahead \<open>(?=.*[c])\<close> at position \<open>i\<close> succeeds exactly when a character of the
  class stands before the next newline, provided the newline is not in the class.
\<close>

lemma ends_any:
  assumes nl: "\<not> cls_ok c 10"
  shows "ends (lookahead_any c) s i \<noteq> [] \<longleftrightarrow>
         (\<exists>x \<in> set (takeWhile (\<lambda>x. x \<noteq> 10) (drop i s)). cls_ok c x)"
proof -
  define line where "line = takeWhile (\<lambda>x. x \<noteq> 10) (drop i s)"
  define k where "k = length line"
  have inside: "i + m < length s \<and> s ! (i + m) = line ! m" if "m < k" for m
  proof -
    have "m < length (drop i s)"
      using that length_takeWhile_le [of "\<lambda>x. x \<noteq> 10" "drop i s"]
      by (simp add: k_def line_def)
    moreover have "line ! m = drop i s ! m"
      using that by (simp add: k_def line_def takeWhile_nth)
    ultimately show ?thesis by simp
  qed
  have edge: "s ! (i + k) = 10" if "i + k < length s"
  proof -
    have "k < length (drop i s)" using that by simp
    then have "\<not> (drop i s ! k \<noteq> 10)"
      unfolding k_def line_def by (rule nth_length_takeWhile)
    then show ?thesis using that by simp
  qed
  have "ends (lookahead_any c) s i \<noteq> [] \<longleftrightarrow>
        (\<exists>m \<le> k. i + m < length s \<and> cls_ok c (s ! (i + m)))"
    unfolding lookahead_any_def ends_Lookahead_nonempty ends_Seq_nonempty set_ends_AtLeast
      ends_Class_nonempty cls_ok_Dot k_def line_def by auto
  also have "\<dots> \<longleftrightarrow> (\<exists>m < k. cls_ok c (line ! m))"
  proof
    assume "\<exists>m \<le> k. i + m < length s \<and> cls_ok c (s ! (i + m))"
    then obtain m where m: "m \<le> k" "i + m < length s" "cls_ok c (s ! (i + m))" by blast
    have "m \<noteq> k" using m nl edge by auto
    then have "m < k" using m by simp
    then show "\<exists>m < k. cls_ok c (line ! m)" using m inside by auto
  next
    assume "\<exists>m < k. cls_ok c (line ! m)"
    then obtain m where "m < k" "cls_ok c (line ! m)" by blast
    then show "\<exists>m \<le> k. i + m < length s \<and> cls_ok c (s ! (i + m))"
      using inside [of m] by (intro exI [of _ m]) simp
  qed
  also have "\<dots> \<longleftrightarrow> (\<exists>x \<in> set line. cls_ok c x)"
    unfolding k_def by (metis in_set_conv_nth)
  finally show ?thesis by (simp add: line_def)
qed

text \<open>
  \<open>.{8,}$\<close> at position 0 succeeds exactly when the first line has at least eight
  characters and is followed by nothing, or by one newline that ends the string.
\<close>

lemma ends_tail:
  "ends (Seq (AtLeast 8 Dot) Eol) s 0 \<noteq> [] \<longleftrightarrow>
     (let line = takeWhile (\<lambda>x. x \<noteq> 10) s; rest = drop (length line) s
      in 8 \<le> length line \<and> (rest = [] \<or> rest = [10]))"
proof -
  define line where "line = takeWhile (\<lambda>x. x \<noteq> 10) s"
  define k where "k = length line"
  have kle: "k \<le> length s"
    unfolding k_def line_def by (rule length_takeWhile_le)
  have inside: "s ! m \<noteq> 10" if "m < k" for m
  proof -
    have "line ! m \<in> set line" using that by (simp add: k_def)
    then have "line ! m \<noteq> 10" unfolding line_def by (auto dest: set_takeWhileD)
    moreover have "line ! m = s ! m"
      using that by (simp add: k_def line_def takeWhile_nth)
    ultimately show ?thesis by simp
  qed
  have edge: "s ! k = 10" if "k < length s"
  proof -
    have "\<not> (s ! k \<noteq> 10)"
      using that unfolding k_def line_def by (rule nth_length_takeWhile)
    then show ?thesis by simp
  qed
  have "ends (Seq (AtLeast 8 Dot) Eol) s 0 \<noteq> [] \<longleftrightarrow>
        (\<exists>m. 8 \<le> m \<and> m \<le> k \<and> (m = length s \<or> (Suc m = length s \<and> s ! m = 10)))"
  proof -
    have "set (ends (AtLeast 8 Dot) s 0) = {m. 8 \<le> m \<and> m \<le> k}"
      unfolding set_ends_AtLeast cls_ok_Dot k_def line_def by simp
    then show ?thesis
      unfolding ends_Seq_nonempty ends_Eol_nonempty
      by (simp only: Bex_def mem_Collect_eq conj_assoc)
  qed
  also have "\<dots> \<longleftrightarrow> 8 \<le> k \<and> (k = length s \<or> (Suc k = length s \<and> s ! k = 10))"
  proof
    assume "\<exists>m. 8 \<le> m \<and> m \<le> k \<and> (m = length s \<or> (Suc m = length s \<and> s ! m = 10))"
    then obtain m where m: "8 \<le> m" "m \<le> k"
      "m = length s \<or> (Suc m = length s \<and> s ! m = 10)" by blast
    have "m = k"
    proof (rule ccontr)
      assume "m \<noteq> k"
      then have "m < k" using m by simp
      then show False using m(3) kle inside [of m] by auto
    qed
    then show "8 \<le> k \<and> (k = length s \<or> (Suc k = length s \<and> s ! k = 10))"
      using m by simp
  next
    assume "8 \<le> k \<and> (k = length s \<or> (Suc k = length s \<and> s ! k = 10))"
    then show "\<exists>m. 8 \<le> m \<and> m \<le> k \<and> (m = length s \<or> (Suc m = length s \<and> s ! m = 10))"
      by (intro exI [of _ k]) simp
  qed
  also have "\<dots> \<longleftrightarrow> 8 \<le> k \<and> (drop k s = [] \<or> drop k s = [10])"
  proof -
    have "drop k s = [10] \<longleftrightarrow> Suc k = length s \<and> s ! k = 10"
    proof
      assume d: "drop k s = [10]"
      then have "length (drop k s) = 1" by simp
      then have l: "Suc k = length s" by simp
      then have "k < length s" by simp
      then show "Suc k = length s \<and> s ! k = 10" using l edge by simp
    next
      assume a: "Suc k = length s \<and> s ! k = 10"
      then have "k < length s" by simp
      then have "drop k s = s ! k # drop (Suc k) s" by (simp add: Cons_nth_drop_Suc)
      then show "drop k s = [10]" using a by simp
    qed
    moreover have "drop k s = [] \<longleftrightarrow> k = length s" using kle by auto
    ultimately show ?thesis by simp
  qed
  finally show ?thesis by (simp add: Let_def k_def line_def)
qed

lemma seq_lookahead:
  "ends (Seq (lookahead_any c) r) s i \<noteq> [] \<longleftrightarrow>
   ends (lookahead_any c) s i \<noteq> [] \<and> ends r s i \<noteq> []"
proof -
  have "ends (Seq (Lookahead r1) r) s i \<noteq> [] \<longleftrightarrow>
        ends r1 s i \<noteq> [] \<and> ends r s i \<noteq> []" for r1
    by (cases "ends r1 s i = []")
       (simp_all del: ends.simps add: ends.simps(3) ends.simps(6) [of "Lookahead r1"])
  then show ?thesis
    by (simp del: ends.simps add: lookahead_any_def ends.simps(3))
qed

lemma special_chars_eq: "special_chars = [64, 35, 36, 37, 94, 38, 43, 61, 33]"
  by (simp add: special_chars_def py_def)

lemma special_no_newline: "\<not> cls_ok (OneOf special_chars) 10"
  by (simp add: special_chars_eq)

text \<open>
  The pattern in closed form: \<open>re.match\<close> accepts a password exactly when its first line
  holds a digit, a lowercase letter, an uppercase letter and a special character, has at
  least eight characters, and is the whole password up to one final newline.
\<close>

lemma re_match_password_pattern:
  "re_match password_pattern s \<longleftrightarrow>
     (\<exists>c \<in> set (first_line s). 48 \<le> c \<and> c \<le> 57) \<and>
     (\<exists>c \<in> set (first_line s). 97 \<le> c \<and> c \<le> 122) \<and>
     (\<exists>c \<in> set (first_line s). 65 \<le> c \<and> c \<le> 90) \<and>
     (\<exists>c \<in> set (first_line s). c \<in> set special_chars) \<and>
     8 \<le> length (first_line s) \<and>
     (drop (length (first_line s)) s = [] \<or> drop (length (first_line s)) s = [10])"
proof -
  have m0: "re_match password_pattern s \<longleftrightarrow>
     ends (lookahead_any (Range 48 57)) s 0 \<noteq> [] \<and>
     ends (lookahead_any (Range 97 122)) s 0 \<noteq> [] \<and>
     ends (lookahead_any (Range 65 90)) s 0 \<noteq> [] \<and>
     ends (lookahead_any (OneOf special_chars)) s 0 \<noteq> [] \<and>
     ends (Seq (AtLeast 8 Dot) Eol) s 0 \<noteq> []"
    unfolding re_match_def password_pattern_def
    by (simp add: ends_Seq_nonempty [of Bol] seq_lookahead del: ends.simps(2-6))
  have m: "ends (lookahead_any c) s 0 \<noteq> [] \<longleftrightarrow> (\<exists>x \<in> set (first_line s). cls_ok c x)"
    if "\<not> cls_ok c 10" for c
    using ends_any [OF that, of s 0] by (simp only: drop_0 first_line_def)
  have m1: "ends (lookahead_any (Range 48 57)) s 0 \<noteq> [] \<longleftrightarrow>
      (\<exists>c \<in> set (first_line s). 48 \<le> c \<and> c \<le> 57)"
    by (subst m) simp_all
  have m2: "ends (lookahead_any (Range 97 122)) s 0 \<noteq> [] \<longleftrightarrow>
      (\<exists>c \<in> set (first_line s). 97 \<le> c \<and> c \<le> 122)"
    by (subst m) simp_all
  have m3: "ends (lookahead_any (Range 65 90)) s 0 \<noteq> [] \<longleftrightarrow>
      (\<exists>c \<in> set (first_line s). 65 \<le> c \<and> c \<le> 90)"
    by (subst m) simp_all
  have m4: "ends (lookahead_any (OneOf special_chars)) s 0 \<noteq> [] \<longleftrightarrow>
      (\<exists>c \<in> set (first_line s). c \<in> set special_chars)"
    using m [OF special_no_newline] by simp
  have m5: "ends (Seq (AtLeast 8 Dot) Eol) s 0 \<noteq> [] \<longleftrightarrow>
      8 \<le> length (first_line s) \<and>
      (drop (length (first_line s)) s = [] \<or> drop (length (first_line s)) s = [10])"
    unfolding ends_tail by (simp only: first_line_def Let_def)
  show ?thesis by (simp only: m0 m1 m2 m3 m4 m5)
qed

text \<open>Every password that the pattern accepts satisfies the policy in words.\<close>

lemma re_match_imp_policy_in_words:
  assumes "re_match password_pattern s"
  shows "policy_in_words s"
proof -
  have sub: "set (first_line s) \<subseteq> set s"
    unfolding first_line_def by (auto dest: set_takeWhileD)
  have "length (first_line s) \<le> length s"
    unfolding first_line_def by (rule length_takeWhile_le)
  then show ?thesis
    using assms sub unfolding re_match_password_pattern policy_in_words_def by fastforce
qed

text \<open>On passwords without a newline the pattern and the policy in words agree.\<close>

lemma re_match_eq_policy_in_words:
  assumes "10 \<notin> set s"
  shows "re_match password_pattern s \<longleftrightarrow> policy_in_words s"
proof -
  have "first_line s = s"
    unfolding first_line_def using assms by (induction s) auto
  then show ?thesis
    unfolding re_match_password_pattern policy_in_words_def by auto
qed

text \<open>A password that the pattern refuses gets the 400 error, and nothing is inserted.\<close>

lemma create_user_policy_error:
  assumes "\<not> re_match password_pattern (UserCreate.password uc)"
  shows "create_user ctx users uc = (Inl (HTTPException 400 policy_detail), users)"
  using assms by (simp add: create_user_def validate_password_def)

lemma create_user_accepts:
  assumes "re_match password_pattern (UserCreate.password uc)"
    and "find_one_email users (UserCreate.email uc) = None"
  shows "\<exists>users'. create_user ctx users uc =
           (Inr [(py ''message'', py ''User created successfully'')], users')"
  using assms by (simp add: create_user_def validate_password_def Let_def)

text \<open>
  Claim C1. Every password that satisfies the policy (at least 8 characters, a digit, a
  lowercase letter, an uppercase letter, a special character) is accepted by
  \<open>create_user\<close>, and every other password gets the 400 policy error. The code breaks
  the first half: the password \<open>Abcdef1!\<close>, newline, \<open>x\<close> satisfies the policy, as
  the detail string of the error words it, and \<open>create_user\<close> still answers with the
  400 policy error and inserts nothing, because \<open>.\<close> does not match a newline.
\<close>

theorem C1_policy_password_refused:
  "policy_in_words (py ''Abcdef1!'' @ [10] @ py ''x'') \<and>
   create_user ctx users
     \<lparr>UserCreate.username = u, email = e, password = py ''Abcdef1!'' @ [10] @ py ''x''\<rparr>
     = (Inl (HTTPException 400 policy_detail), users)"
proof -
  have "\<not> re_match password_pattern (py ''Abcdef1!'' @ [10] @ py ''x'')"
    by (simp add: re_match_password_pattern first_line_def py_def)
  then have "create_user ctx users
      \<lparr>UserCreate.username = u, email = e, password = py ''Abcdef1!'' @ [10] @ py ''x''\<rparr>
      = (Inl (HTTPException 400 policy_detail), users)"
    by (intro create_user_policy_error) simp
  moreover have "policy_in_words (py ''Abcdef1!'' @ [10] @ py ''x'')"
    by (simp add: policy_in_words_def py_def special_chars_eq)
  ultimately show ?thesis by simp
qed

section \<open>Authentication: what the caller learns\<close>








section \<open>The history of a user\<close>


lemma delete_one_Cons:
  "delete_one P (d # ds) =
     (if P d then (1, ds) else (fst (delete_one P ds), d # snd (delete_one P ds)))"
  by (simp split: prod.splits)

lemma delete_one_match:
  "\<exists>d \<in> set ds. P d \<Longrightarrow> fst (delete_one P ds) = 1"
  by (induction ds) (auto simp: delete_one_Cons simp del: delete_one.simps(2))









section \<open>Generating an analogy and a quiz\<close>

lemma generate_empty_concept:
  assumes "strip (GenerateRequest.concept req) = []"
  shows "generate srv coll req cu now nid
     = (Inl (HTTPException 500
              (str_of_exn srv (HTTPException 400 (py ''Concept must not be empty'')))), coll)"
  using assms by (simp add: generate_def generate_body_def Let_def)

text \<open>
  Claim C5. An authenticated \<open>POST /generate\<close> whose concept is empty after stripping
  is answered with 400. The code raises that \<open>HTTPException(400)\<close> inside the \<open>try\<close>
  whose \<open>except Exception\<close> catches it, so the answer is 500: here for a concept of
  three spaces, whoever the user and whatever the services are.
\<close>

theorem C5_blank_concept_answers_500:
  "generate srv coll \<lparr>GenerateRequest.concept = py ''   '', level = lv\<rparr> cu now nid
     = (Inl (HTTPException 500
              (str_of_exn srv (HTTPException 400 (py ''Concept must not be empty'')))), coll)"
proof -
  have "strip (py ''   '') = []"
    by (simp add: strip_def py_def isspace_def)
  then show ?thesis
    by (intro generate_empty_concept) simp
qed

lemma setdefault_keeps: "map_of d k' \<noteq> None \<Longrightarrow> map_of (setdefault k v d) k' \<noteq> None"
  by (auto simp: setdefault_def)

lemma setdefault_has: "map_of (setdefault k v d) k \<noteq> None"
  by (auto simp: setdefault_def map_add_def)

lemma parse_analogy_keys:
  "\<exists>d. parse_analogy srv t = JDict d
     \<and> map_of d (py ''tagline'') \<noteq> None \<and> map_of d (py ''analogy'') \<noteq> None
     \<and> map_of d (py ''mapping'') \<noteq> None \<and> map_of d (py ''limitations'') \<noteq> None"
proof (cases "\<exists>d. loads_text srv t = Some (JDict d)")
  case True
  then obtain d where d: "loads_text srv t = Some (JDict d)" by blast
  let ?d1 = "setdefault (py ''tagline'') (JStr []) d"
  let ?d2 = "setdefault (py ''analogy'') (JStr []) ?d1"
  let ?d3 = "setdefault (py ''mapping'') (JList []) ?d2"
  let ?d4 = "setdefault (py ''limitations'') (JList []) ?d3"
  have "parse_analogy srv t = JDict ?d4"
    using d by (simp add: parse_analogy_def)
  moreover have "map_of ?d4 (py ''tagline'') \<noteq> None"
    by (intro setdefault_keeps setdefault_has)
  moreover have "map_of ?d4 (py ''analogy'') \<noteq> None"
    by (intro setdefault_keeps setdefault_has)
  moreover have "map_of ?d4 (py ''mapping'') \<noteq> None"
    by (intro setdefault_keeps setdefault_has)
  moreover have "map_of ?d4 (py ''limitations'') \<noteq> None"
    by (intro setdefault_has)
  ultimately show ?thesis by blast
next
  case False
  then have "parse_analogy srv t = degraded_result t"
    by (auto simp: parse_analogy_def split: option.splits json.splits)
  then show ?thesis
    by (simp add: degraded_result_def py_def)
qed

lemma generate_result:
  assumes "generate srv coll req cu now nid = (Inr resp, coll')"
  shows "\<exists>content. chat_analogy srv (strip (GenerateRequest.concept req)) (GenerateRequest.level req)
            = Inr content
         \<and> generate_response.result resp = parse_analogy srv (strip_fence (strip content))"
  using assms
  by (auto simp: generate_def generate_body_def Let_def split: if_splits sum.splits prod.splits)

text \<open>
  Claim C10. In every successful answer of \<open>POST /generate\<close> the result is an object
  with the keys \<open>tagline\<close>, \<open>analogy\<close>, \<open>mapping\<close> and \<open>limitations\<close>, whether
  the text of the LLM parsed to an object (missing keys are filled in), parsed to
  something else, or did not parse.
\<close>

theorem C10_result_has_four_keys:
  assumes "generate srv coll req cu now nid = (Inr resp, coll')"
  shows "\<exists>d. generate_response.result resp = JDict d
     \<and> map_of d (py ''tagline'') \<noteq> None \<and> map_of d (py ''analogy'') \<noteq> None
     \<and> map_of d (py ''mapping'') \<noteq> None \<and> map_of d (py ''limitations'') \<noteq> None"
proof -
  from generate_result [OF assms] obtain content where
    "generate_response.result resp = parse_analogy srv (strip_fence (strip content))"
    by blast
  then show ?thesis
    using parse_analogy_keys [of srv "strip_fence (strip content)"] by simp
qed

text \<open>
  \<open>POST /generate\<close> on the example services: the prose of the LLM does not parse, the
  result is the degraded one, and the entry is stored.
\<close>

lemma example_generate:
  "generate example_services [] \<lparr>GenerateRequest.concept = py '' recursion '', level = py ''beginner''\<rparr>
      user_a 1000 [0, 0, 0, 0, 0, 0, 0, 0, 0, 0, 0, 7]
   = (Inr \<lparr>concept_received = py ''recursion'', level = py ''beginner'',
           user = Some (JStr (py ''a@x.com'')),
           result = degraded_result (py ''Recursion is a mirror facing a mirror.''),
           quiz = JDict []\<rparr>,
      [\<lparr>oid = [0, 0, 0, 0, 0, 0, 0, 0, 0, 0, 0, 7], user_email = JStr (py ''a@x.com''),
        concept = py ''recursion'', level = py ''beginner'',
        result = degraded_result (py ''Recursion is a mirror facing a mirror.''),
        quiz = JDict [], timestamp = 1000\<rparr>])"
proof -
  have c: "strip (py '' recursion '') = py ''recursion''"
    by (simp add: strip_def py_def isspace_def)
  have t: "strip (py ''  Recursion is a mirror facing a mirror.  '')
      = py ''Recursion is a mirror facing a mirror.''"
    by (simp add: strip_def py_def isspace_def)
  have f: "strip_fence (py ''Recursion is a mirror facing a mirror.'')
      = py ''Recursion is a mirror facing a mirror.''"
    by (simp add: strip_fence_def py_def)
  have n: "py ''Recursion is a mirror facing a mirror.'' \<noteq> py ''{}''"
    by (simp add: py_def)
  have a: "parse_analogy example_services (py ''Recursion is a mirror facing a mirror.'')
      = degraded_result (py ''Recursion is a mirror facing a mirror.'')"
    by (simp add: parse_analogy_def example_services_def n)
  have q: "parse_quiz example_services (py ''recursion'') (strip_fence (strip (py ''{}'')))
      = JDict []"
    by (simp add: parse_quiz_def example_services_def strip_def strip_fence_def py_def isspace_def)
  have e: "getitem user_a (py ''email'') = Inr (JStr (py ''a@x.com''))"
    by (simp add: getitem_def user_a_def)
  have m: "map_of user_a (py ''email'') = Some (JStr (py ''a@x.com''))"
    by (simp add: user_a_def)
  have ca: "chat_analogy example_services = (\<lambda>c l. Inr (py ''  Recursion is a mirror facing a mirror.  ''))"
    and cq: "chat_quiz example_services = (\<lambda>c j. Inr (py ''{}''))"
    by (simp_all add: example_services_def)
  have ne: "py ''recursion'' \<noteq> []" by (simp add: py_def)
  show ?thesis
    by (simp add: generate_def generate_body_def Let_def c ca cq t f a q e m ne insert_one_def)
qed

text \<open>Claim C10 on the example: the answer is successful and its result has the keys.\<close>

theorem C10_witness:
  "generate example_services []
      \<lparr>GenerateRequest.concept = py '' recursion '', level = py ''beginner''\<rparr>
      user_a 1000 [0, 0, 0, 0, 0, 0, 0, 0, 0, 0, 0, 7]
   = (Inr \<lparr>concept_received = py ''recursion'', level = py ''beginner'',
           user = Some (JStr (py ''a@x.com'')),
           result = degraded_result (py ''Recursion is a mirror facing a mirror.''),
           quiz = JDict []\<rparr>,
      [\<lparr>oid = [0, 0, 0, 0, 0, 0, 0, 0, 0, 0, 0, 7], user_email = JStr (py ''a@x.com''),
        concept = py ''recursion'', level = py ''beginner'',
        result = degraded_result (py ''Recursion is a mirror facing a mirror.''),
        quiz = JDict [], timestamp = 1000\<rparr>])
   \<and> (\<exists>d. degraded_result (py ''Recursion is a mirror facing a mirror.'') = JDict d
        \<and> map_of d (py ''tagline'') \<noteq> None \<and> map_of d (py ''analogy'') \<noteq> None
        \<and> map_of d (py ''mapping'') \<noteq> None \<and> map_of d (py ''limitations'') \<noteq> None)"
  using C10_result_has_four_keys [OF example_generate] example_generate by simp




section \<open>Session tokens: base64url and the three segments\<close>

text \<open>
  The arithmetic of one group: three bytes are cut into four 6-bit values and put
  together again.
\<close>

lemma b64_arith1:
  fixes a b :: nat
  assumes "b < 256"
  shows "a div 4 * 4 + (a mod 4 * 16 + b div 16) div 16 = a"
proof -
  have "b div 16 < 16" using assms by simp
  then have "(a mod 4 * 16 + b div 16) div 16 = a mod 4" by simp
  then show ?thesis by simp
qed
lemma b64_arith2:
  fixes a b c :: nat
  assumes "b < 256" "c < 256"
  shows "(a mod 4 * 16 + b div 16) mod 16 * 16 + (b mod 16 * 4 + c div 64) div 4 = b"
proof -
  have "b div 16 < 16" using assms by simp
  then have 1: "(a mod 4 * 16 + b div 16) mod 16 = b div 16" by simp
  have "c div 64 < 4" using assms by simp
  then have 2: "(b mod 16 * 4 + c div 64) div 4 = b mod 16" by simp
  show ?thesis unfolding 1 2 by simp
qed
lemma b64_arith3:
  fixes b c :: nat
  assumes "c < 256"
  shows "(b mod 16 * 4 + c div 64) mod 4 * 64 + c mod 64 = c"
proof -
  have "c div 64 < 4" using assms by simp
  then have 1: "(b mod 16 * 4 + c div 64) mod 4 = c div 64" by simp
  show ?thesis unfolding 1 by simp
qed
lemma b64_bounds:
  fixes a b c :: nat
  assumes "a < 256" "b < 256" "c < 256"
  shows "a div 4 < 64" and "a mod 4 * 16 + b div 16 < 64"
    and "b mod 16 * 4 + c div 64 < 64" and "c mod 64 < 64"
    and "a mod 4 * 16 < 64" and "b mod 16 * 4 < 64"
proof -
  have "a mod 4 < 4" "b div 16 < 16" "b mod 16 < 16" "c div 64 < 4"
    using assms by simp_all
  then show "a mod 4 * 16 + b div 16 < 64" "b mod 16 * 4 + c div 64 < 64"
    "a mod 4 * 16 < 64" "b mod 16 * 4 < 64"
    by linarith+
  show "a div 4 < 64" using assms by simp
  show "c mod 64 < 64" by simp
qed

lemma b64_table_urlsafe_char:
  assumes "v < 64"
  shows "b64_table (urlsafe_char v) = Some v"
proof -
  have "(if v < 26 then v + 65 else if v < 52 then v + 71 else if v < 62 then v - 4
         else if v = 62 then 45 else (95::nat)) < 256"
    using assms by auto
  then show ?thesis
    using assms
    by (auto simp: b64_table_def urlsafe_char_def Let_def)
qed

lemma urlsafe_char_not_special:
  assumes "v < 64"
  shows "urlsafe_char v \<noteq> CHR ''='' \<and> urlsafe_char v \<noteq> CHR ''.''"
proof -
  have "of_char (urlsafe_char v) \<noteq> (61::nat) \<and> of_char (urlsafe_char v) \<noteq> (46::nat)"
    using assms by (auto simp: urlsafe_char_def)
  then show ?thesis by auto
qed

lemma a2b_data_char:
  assumes "v < 64"
  shows "a2b_base64 (urlsafe_char v # rest) quad_pos leftchar pads =
     (if quad_pos = 0 then a2b_base64 rest 1 v 0
      else if quad_pos = 1 then
        map_option ((#) (char_of (leftchar * 4 + v div 16))) (a2b_base64 rest 2 (v mod 16) 0)
      else if quad_pos = 2 then
        map_option ((#) (char_of (leftchar * 16 + v div 4))) (a2b_base64 rest 3 (v mod 4) 0)
      else map_option ((#) (char_of (leftchar * 64 + v))) (a2b_base64 rest 0 0 0))"
  using b64_table_urlsafe_char [OF assms] urlsafe_char_not_special [OF assms]
  by simp

lemma sextets_lt_64:
  assumes "\<forall>x \<in> set xs. x < 256"
  shows "\<forall>v \<in> set (b2a_sextets xs). v < 64"
  using assms
proof (induction xs rule: b2a_sextets.induct)
  case (1 a b c rest)
  then have "a < 256" "b < 256" "c < 256" by simp_all
  then have "a div 4 < 64" "a mod 4 * 16 + b div 16 < 64" "b mod 16 * 4 + c div 64 < 64"
    "c mod 64 < 64"
    by (simp_all add: less_mult_imp_div_less)
  with 1 show ?case by simp
next
  case (2 a b)
  then have "a < 256" "b < 256" by simp_all
  then have "a div 4 < 64" "a mod 4 * 16 + b div 16 < 64" "b mod 16 * 4 < 64"
    by (simp_all add: less_mult_imp_div_less)
  then show ?case by simp
next
  case (3 a)
  then have "a < 256" by simp
  then have "a div 4 < 64" "a mod 4 * 16 < 64"
    by (simp_all add: less_mult_imp_div_less)
  then show ?case by simp
next
  case 4
  then show ?case by simp
qed


lemma a2b_triple:
  assumes "a < 256" "b < 256" "c < 256"
  shows "a2b_base64
           (map urlsafe_char
              [a div 4, a mod 4 * 16 + b div 16, b mod 16 * 4 + c div 64, c mod 64] @ rest)
           0 l p
         = map_option (\<lambda>r. char_of a # char_of b # char_of c # r) (a2b_base64 rest 0 0 0)"
  using b64_bounds [OF assms] b64_arith1 [OF assms(2), of a] b64_arith2 [OF assms(2,3), of a]
    b64_arith3 [OF assms(3), of b]
  by (simp add: a2b_data_char option.map_comp comp_def del: a2b_base64.simps)

lemma a2b_tail2:
  assumes "a < 256" "b < 256" "d < 4"
  shows "a2b_base64
           (map urlsafe_char [a div 4, a mod 4 * 16 + b div 16, b mod 16 * 4 + d] @ ''='')
           0 l p
         = Some [char_of a, char_of b]"
proof -
  have "b mod 16 < 16" by simp
  then have lt: "b mod 16 * 4 + d < 64" using assms(3) by linarith
  have dv: "(b mod 16 * 4 + d) div 4 = b mod 16" using assms(3) by simp
  have "b div 16 < 16" using assms(2) by simp
  then have md: "(a mod 4 * 16 + b div 16) mod 16 = b div 16" by simp
  show ?thesis
    using b64_bounds(1,2) [OF assms(1,2) assms(2)] lt b64_arith1 [OF assms(2), of a]
    by (simp add: a2b_data_char dv md del: a2b_base64.simps(2))
       simp
qed

lemma a2b_tail1:
  assumes "a < 256" "d < 16"
  shows "a2b_base64 (map urlsafe_char [a div 4, a mod 4 * 16 + d] @ ''=='') 0 l p
         = Some [char_of a]"
proof -
  have "a mod 4 < 4" by simp
  then have lt: "a mod 4 * 16 + d < 64" using assms(2) by linarith
  have dv: "(a mod 4 * 16 + d) div 16 = a mod 4" using assms(2) by simp
  have a: "a div 4 * 4 + a mod 4 = a" by simp
  show ?thesis
    using b64_bounds(1) [OF assms(1) assms(1) assms(1)] lt
    by (simp add: a2b_data_char dv a del: a2b_base64.simps(2))
       simp
qed

lemma length_b2a_sextets_mod4:
  "length (b2a_sextets xs) mod 4 = (if length xs mod 3 = 0 then 0 else length xs mod 3 + 1)"
proof (induction xs rule: b2a_sextets.induct)
  case (1 a b c rest)
  have "length (a # b # c # rest) = length rest + 3" by simp
  then have "length (a # b # c # rest) mod 3 = length rest mod 3" by simp
  moreover have "length (b2a_sextets (a # b # c # rest)) = length (b2a_sextets rest) + 4"
    by simp
  then have "length (b2a_sextets (a # b # c # rest)) mod 4 = length (b2a_sextets rest) mod 4"
    by simp
  ultimately show ?case using "1.IH" by simp
qed simp_all

lemma a2b_b2a:
  assumes "\<forall>x \<in> set xs. x < 256"
  shows "a2b_base64
           (map urlsafe_char (b2a_sextets xs)
              @ replicate ((4 - length (b2a_sextets xs) mod 4) mod 4) (CHR ''=''))
           0 0 0
         = Some (map char_of xs)"
  using assms
proof (induction xs rule: b2a_sextets.induct)
  case (1 a b c rest)
  then have lt: "a < 256" "b < 256" "c < 256" and r: "\<forall>x \<in> set rest. x < 256"
    by simp_all
  have len: "length (b2a_sextets (a # b # c # rest)) mod 4 = length (b2a_sextets rest) mod 4"
    by simp
  show ?case
    unfolding len
    using a2b_triple [OF lt] "1.IH" [OF r]
    by (simp del: a2b_base64.simps)
next
  case (2 a b)
  then have lt: "a < 256" "b < 256" by simp_all
  show ?case
    using a2b_tail2 [OF lt, of 0 0 0] by (simp del: a2b_base64.simps)
next
  case (3 a)
  then have lt: "a < 256" by simp
  show ?case
    using a2b_tail1 [OF lt, of 0 0 0] by (simp add: numeral_2_eq_2 del: a2b_base64.simps)
next
  case 4
  show ?case by simp
qed

lemma base64url_round_trip: "base64url_decode (base64url_encode bs) = Some bs"
proof -
  have lt: "\<forall>x \<in> set (map of_char bs :: nat list). x < 256"
    by simp
  let ?enc = "base64url_encode bs"
  have pad: "(if 0 < length ?enc mod 4 then ?enc @ replicate (4 - length ?enc mod 4) (CHR ''='')
              else ?enc)
      = ?enc @ replicate ((4 - length ?enc mod 4) mod 4) (CHR ''='')"
    by simp
  have "a2b_base64 (?enc @ replicate ((4 - length ?enc mod 4) mod 4) (CHR ''='')) 0 0 0
      = Some (map char_of (map of_char bs :: nat list))"
    using a2b_b2a [OF lt] by (simp add: base64url_encode_def)
  then show ?thesis
    unfolding base64url_decode_def Let_def pad by (simp add: comp_def)
qed

lemma base64url_encode_no_dot: "CHR ''.'' \<notin> set (base64url_encode bs)"
proof -
  have lt: "\<forall>x \<in> set (map of_char bs :: nat list). x < 256"
    by simp
  show ?thesis
  proof
    assume "CHR ''.'' \<in> set (base64url_encode bs)"
    then obtain v where v: "v \<in> set (b2a_sextets (map of_char bs))" "urlsafe_char v = CHR ''.''"
      by (auto simp: base64url_encode_def)
    then have "v < 64" using sextets_lt_64 [OF lt] by simp
    then show False using urlsafe_char_not_special [of v] v by simp
  qed
qed

lemma split_first_append:
  assumes "sep \<notin> set h"
  shows "split_first sep (h @ sep # rest) = Some (h, rest)"
proof -
  have "takeWhile (\<lambda>c. c \<noteq> sep) (h @ sep # rest) = h"
    using assms by (induction h) auto
  moreover have "dropWhile (\<lambda>c. c \<noteq> sep) (h @ sep # rest) = sep # rest"
    using assms by (induction h) auto
  ultimately show ?thesis by (simp add: split_first_def)
qed

lemma split_last_append:
  assumes "sep \<notin> set s"
  shows "split_last sep (pre @ sep # s) = Some (pre, s)"
proof -
  have "rev (pre @ sep # s) = rev s @ sep # rev pre" by simp
  moreover have "sep \<notin> set (rev s)" using assms by simp
  ultimately have "split_first sep (rev (pre @ sep # s)) = Some (rev s, rev pre)"
    using split_first_append [of sep "rev s" "rev pre"] by simp
  then show ?thesis by (simp add: split_last_def)
qed

lemma split_last_None: "split_last sep s = None \<longleftrightarrow> sep \<notin> set s"
  by (auto simp: split_last_def split_first_def split: option.splits)




text \<open>
  A token made by \<open>jwt.encode\<close> is split into its segments again by \<open>jws._load\<close>,
  given that the JSON codec reads back the header it wrote.
\<close>

lemma jws_load_encode:
  assumes hdr: "json_loads lib (json_dumps lib (jose_header alg)) = Some (jose_header alg)"
  shows "jws_load lib (jwt_encode lib claims key alg)
     = Inr ([(py ''alg'', JStr alg), (py ''typ'', JStr (py ''JWT''))],
            json_dumps lib (JDict claims),
            base64url_encode (json_dumps lib (jose_header alg)) @ ''.''
              @ base64url_encode (json_dumps lib (JDict claims)),
            hmac_sha256 lib key
              (base64url_encode (json_dumps lib (jose_header alg)) @ ''.''
                 @ base64url_encode (json_dumps lib (JDict claims))))"
proof -
  let ?h = "base64url_encode (json_dumps lib (jose_header alg))"
  let ?c = "base64url_encode (json_dumps lib (JDict claims))"
  let ?si = "?h @ ''.'' @ ?c"
  let ?s = "base64url_encode (hmac_sha256 lib key ?si)"
  have tok: "jwt_encode lib claims key alg = ?si @ CHR ''.'' # ?s"
    by (simp add: jwt_encode_def Let_def)
  have l: "split_last (CHR ''.'') (?si @ CHR ''.'' # ?s) = Some (?si, ?s)"
    by (rule split_last_append) (rule base64url_encode_no_dot)
  have f: "split_first (CHR ''.'') (?h @ CHR ''.'' # ?c) = Some (?h, ?c)"
    by (rule split_first_append) (rule base64url_encode_no_dot)
  have h: "json_loads lib (json_dumps lib (jose_header alg))
      = Some (JDict [(py ''alg'', JStr alg), (py ''typ'', JStr (py ''JWT''))])"
    using hdr by (simp add: jose_header_def)
  show ?thesis
    unfolding tok jws_load_def l
    by (simp add: f h base64url_round_trip)
qed

lemma jwt_decode_encode:
  assumes hdr: "json_loads lib (json_dumps lib (jose_header alg)) = Some (jose_header alg)"
    and pl: "json_loads lib (json_dumps lib (JDict claims)) = Some (JDict claims)"
  shows "jwt_decode lib (jwt_encode lib claims key alg) key [alg] now
     = (case validate_claims lib claims now of Inl e \<Rightarrow> Inl e | Inr _ \<Rightarrow> Inr claims)"
  unfolding jwt_decode_def jws_load_encode [OF hdr]
  using pl by (simp add: verify_signature_def)

section \<open>Session tokens: the leniency of the base64 decoder\<close>

lemma b2a_sextets_append:
  assumes "length ys mod 3 = 0"
  shows "b2a_sextets (ys @ zs) = b2a_sextets ys @ b2a_sextets zs"
  using assms
proof (induction ys rule: b2a_sextets.induct)
  case (1 a b c rest)
  have "length (a # b # c # rest) = length rest + 3" by simp
  then have "length rest mod 3 = 0" using "1.prems" by simp
  then show ?case using "1.IH" by simp
qed simp_all


lemma a2b_prefix:
  assumes "length ys mod 3 = 0" and "\<forall>x \<in> set ys. x < 256"
  shows "a2b_base64 (map urlsafe_char (b2a_sextets ys) @ rest) 0 0 0
         = map_option ((@) (map char_of ys)) (a2b_base64 rest 0 0 0)"
  using assms
proof (induction ys rule: b2a_sextets.induct)
  case (1 a b c ys)
  have "length (a # b # c # ys) = length ys + 3" by simp
  then have len: "length ys mod 3 = 0" using "1.prems"(1) by simp
  from "1.prems"(2) have lt: "a < 256" "b < 256" "c < 256" and r: "\<forall>x \<in> set ys. x < 256"
    by simp_all
  have e: "map urlsafe_char (b2a_sextets (a # b # c # ys)) @ rest
      = map urlsafe_char [a div 4, a mod 4 * 16 + b div 16, b mod 16 * 4 + c div 64, c mod 64]
          @ (map urlsafe_char (b2a_sextets ys) @ rest)"
    by simp
  show ?case
    unfolding e a2b_triple [OF lt] "1.IH" [OF len r]
    by (simp add: option.map_comp comp_def del: a2b_base64.simps)
next
  case (2 a b)
  then have False by simp
  then show ?case ..
next
  case (3 a)
  then have False by simp
  then show ?case ..
next
  case 4
  show ?case by (simp add: option.map_ident del: a2b_base64.simps)
qed


lemma urlsafe_char_inj:
  assumes "v < 64" "w < 64" "urlsafe_char v = urlsafe_char w"
  shows "v = w"
proof -
  have "Some v = b64_table (urlsafe_char v)"
    by (simp only: b64_table_urlsafe_char [OF assms(1)])
  also have "\<dots> = b64_table (urlsafe_char w)"
    by (simp only: assms(3))
  also have "\<dots> = Some w"
    by (simp only: b64_table_urlsafe_char [OF assms(2)])
  finally show ?thesis by simp
qed



text \<open>
  The leniency of the decoder, for a byte string of two bytes more than a multiple of
  three (the 32 bytes of an HMAC-SHA256 are one): the last character of its encoding can
  be exchanged for another one that decodes to the same bytes.
\<close>

lemma base64url_last_char_lenient:
  assumes "length sg mod 3 = 2"
  shows "\<exists>c. c \<noteq> last (base64url_encode sg) \<and> c \<noteq> CHR ''.''
           \<and> base64url_decode (butlast (base64url_encode sg) @ [c]) = Some sg"
proof -
  let ?xs = "map of_char sg :: nat list"
  have "length sg \<noteq> 0" "length sg \<noteq> 1" using assms by auto
  then have "\<exists>ys a b. ?xs = ys @ [a, b]"
  proof (cases sg rule: rev_cases)
    case Nil
    then show ?thesis using \<open>length sg \<noteq> 0\<close> by simp
  next
    case (snoc zs z)
    show ?thesis
    proof (cases zs rule: rev_cases)
      case Nil
      then show ?thesis using snoc \<open>length sg \<noteq> 1\<close> by simp
    next
      case (snoc ws w)
      then have "?xs = map of_char ws @ [of_char w, of_char z]"
        using \<open>sg = zs @ [z]\<close> by simp
      then show ?thesis by blast
    qed
  qed
  then obtain ys a b where xs: "?xs = ys @ [a, b]" by blast
  have lt: "\<forall>x \<in> set ?xs. x < 256" by simp
  then have ltys: "\<forall>x \<in> set ys. x < 256" and ab: "a < 256" "b < 256"
    unfolding xs by simp_all
  have "length ?xs = length ys + 2" unfolding xs by simp
  then have "(length ys + 2) mod 3 = 2" using assms by simp
  then have lys: "length ys mod 3 = 0" by presburger
  let ?pre = "map urlsafe_char (b2a_sextets ys) @ map urlsafe_char [a div 4, a mod 4 * 16 + b div 16]"
  have enc: "base64url_encode sg = ?pre @ [urlsafe_char (b mod 16 * 4)]"
    unfolding base64url_encode_def xs b2a_sextets_append [OF lys] by simp
  let ?c = "urlsafe_char (b mod 16 * 4 + 1)"
  have "b mod 16 < 16" by simp
  then have b1: "b mod 16 * 4 < 64" and b2: "b mod 16 * 4 + 1 < 64" by linarith+
  have c1: "?c \<noteq> last (base64url_encode sg)"
  proof -
    have "?c \<noteq> urlsafe_char (b mod 16 * 4)"
      using urlsafe_char_inj [OF b2 b1] by auto
    then show ?thesis unfolding enc by simp
  qed
  have c2: "?c \<noteq> CHR ''.''" using urlsafe_char_not_special [OF b2] by simp
  have len4: "length (b2a_sextets ys) mod 4 = 0"
    using length_b2a_sextets_mod4 [of ys] lys by simp
  have "length (?pre @ [?c]) = length (b2a_sextets ys) + 3" by simp
  then have pad: "length (?pre @ [?c]) mod 4 = 3" using len4 by presburger
  have app: "(?pre @ [?c]) @ ''=''
      = map urlsafe_char (b2a_sextets ys)
          @ (map urlsafe_char [a div 4, a mod 4 * 16 + b div 16, b mod 16 * 4 + 1] @ ''='')"
    by simp
  have t2: "a2b_base64
      (map urlsafe_char [a div 4, a mod 4 * 16 + b div 16, b mod 16 * 4 + 1] @ ''='') 0 0 0
      = Some [char_of a, char_of b]"
    by (rule a2b_tail2 [OF ab]) simp
  have sgeq: "map char_of ys @ [char_of a, char_of b] = sg"
  proof -
    have "map char_of ys @ [char_of a, char_of b] = map char_of ?xs"
      unfolding xs by simp
    then show ?thesis by (simp add: comp_def)
  qed
  have "a2b_base64 ((?pre @ [?c]) @ ''='') 0 0 0 = Some sg"
    unfolding app a2b_prefix [OF lys ltys] t2 using sgeq by simp
  then have dec: "base64url_decode (?pre @ [?c]) = Some sg"
    unfolding base64url_decode_def Let_def pad by (simp del: a2b_base64.simps)
  have "butlast (base64url_encode sg) = ?pre"
    unfolding enc by (simp add: butlast_append)
  then show ?thesis using c1 c2 dec by (intro exI [of _ ?c]) simp
qed


section \<open>Session tokens: issue and verify\<close>

lemma py_keys_distinct:
  "py ''iat'' \<noteq> py ''exp''" "py ''nbf'' \<noteq> py ''exp''" "py ''aud'' \<noteq> py ''exp''"
  "py ''sub'' \<noteq> py ''exp''" "py ''jti'' \<noteq> py ''exp''" "py ''at_hash'' \<noteq> py ''exp''"
  by (simp_all add: py_def)

lemma map_of_issued:
  "map_of (AList.update (py ''exp'') x (map (\<lambda>(k, v). (k, JStr v)) d)) k
     = (if k = py ''exp'' then Some x else map_option JStr (map_of d k))"
proof -
  have "map_of (map (\<lambda>(k, v). (k, JStr v)) d) k = map_option JStr (map_of d k)"
    by (induction d) auto
  then show ?thesis by (simp add: update_conv')
qed

lemma validate_claims_issued:
  assumes "py ''iat'' \<notin> fst ` set d" "py ''nbf'' \<notin> fst ` set d"
    "py ''aud'' \<notin> fst ` set d" "py ''at_hash'' \<notin> fst ` set d"
  shows "validate_claims lib (AList.update (py ''exp'') (JInt x) (map (\<lambda>(k, v). (k, JStr v)) d)) t
     = (if x < timegm t then Inl JWTError else Inr ())"
proof -
  have n: "map_of d (py ''iat'') = None" "map_of d (py ''nbf'') = None"
    "map_of d (py ''aud'') = None" "map_of d (py ''at_hash'') = None"
    using assms by (simp_all add: map_of_eq_None_iff)
  show ?thesis
    by (cases "map_of d (py ''sub'')"; cases "map_of d (py ''jti'')")
       (simp_all add: validate_claims_def validate_iat_def validate_nbf_def validate_exp_def
        validate_aud_def validate_str_claim_def validate_at_hash_def and_then_def
        map_of_issued py_keys_distinct n int_claim_def)
qed

text \<open>
  What \<open>decode_access_token\<close> makes of a token that \<open>create_access_token\<close> has just
  issued with the default lifetime, at any later time \<open>t\<close>: the claims with the expiry
  among them, until the whole second of \<open>t\<close> is past the expiry.
\<close>

lemma decode_issued:
  assumes hdr: "json_loads lib (json_dumps lib (jose_header ALGORITHM)) = Some (jose_header ALGORITHM)"
    and claims: "claims = AList.update (py ''exp'') (JInt (timegm (now + timedelta_minutes 60)))
                           (map (\<lambda>(k, v). (k, JStr v)) d)"
    and pl: "json_loads lib (json_dumps lib (JDict claims)) = Some (JDict claims)"
    and reserved: "py ''iat'' \<notin> fst ` set d" "py ''nbf'' \<notin> fst ` set d"
      "py ''aud'' \<notin> fst ` set d" "py ''at_hash'' \<notin> fst ` set d"
  shows "decode_access_token lib (create_access_token lib d None now) t
      = (if timegm (now + timedelta_minutes 60) < timegm t then Inr None else Inr (Some claims))"
proof -
  have tok: "create_access_token lib d None now = jwt_encode lib claims SECRET_KEY ALGORITHM"
    by (simp add: create_access_token_def claims ACCESS_TOKEN_EXPIRE_MINUTES_def Let_def)
  show ?thesis
    unfolding tok decode_access_token_def jwt_decode_encode [OF hdr pl]
    by (simp add: claims validate_claims_issued [OF reserved])
qed

text \<open>
  Claim C2, amended. A token issued by \<open>create_access_token\<close> with the default lifetime
  for claims that use none of the names \<open>iat\<close>, \<open>nbf\<close>, \<open>aud\<close> and \<open>at_hash\<close>, and
  verified at once by \<open>decode_access_token\<close>, returns the original claims together with
  the expiry: \<open>exp\<close> is set to the whole second of issue time plus 60 minutes, replacing
  an \<open>exp\<close> of the caller. The same holds at any later time up to that second; once the
  whole second of the clock is greater than \<open>exp\<close>, the result is \<open>None\<close>. The JSON codec
  is assumed to read back the two objects it wrote.
\<close>

theorem C2_issued_token_round_trip:
  assumes hdr: "json_loads lib (json_dumps lib (jose_header ALGORITHM)) = Some (jose_header ALGORITHM)"
    and claims: "claims = AList.update (py ''exp'') (JInt (timegm (now + timedelta_minutes 60)))
                           (map (\<lambda>(k, v). (k, JStr v)) d)"
    and pl: "json_loads lib (json_dumps lib (JDict claims)) = Some (JDict claims)"
    and reserved: "py ''iat'' \<notin> fst ` set d" "py ''nbf'' \<notin> fst ` set d"
      "py ''aud'' \<notin> fst ` set d" "py ''at_hash'' \<notin> fst ` set d"
  shows "decode_access_token lib (create_access_token lib d None now) now = Inr (Some claims)
     \<and> (\<forall>later. timegm later \<le> timegm (now + timedelta_minutes 60) \<longrightarrow>
            decode_access_token lib (create_access_token lib d None now) later
              = Inr (Some claims))
     \<and> (\<forall>later. timegm (now + timedelta_minutes 60) < timegm later \<longrightarrow>
            decode_access_token lib (create_access_token lib d None now) later = Inr None)"
proof -
  note dec = decode_issued [OF hdr claims pl reserved]
  have "timegm now \<le> timegm (now + timedelta_minutes 60)"
    by (simp add: timegm_def timedelta_minutes_def zdiv_mono1)
  then show ?thesis
    by (auto simp: dec)
qed


text \<open>The example library: the token it issues for \<open>a@x.com\<close> at time 0.\<close>

lemma example_issue:
  "create_access_token example_jose [(py ''email'', py ''a@x.com'')] None 0
     = ''aGVhZGVy.Y2xhaW1z.YUdWaFpHVnkuWTJ4aGFXMXp5b3VyX3N1cGVyX3NlY3I''"
  by code_simp

lemma example_codec:
  "json_loads example_jose (json_dumps example_jose (jose_header ALGORITHM))
     = Some (jose_header ALGORITHM)"
  "json_loads example_jose (json_dumps example_jose (JDict user_a)) = Some (JDict user_a)"
  by (simp_all add: example_jose_def jose_header_def user_a_def py_def)

lemma example_claims:
  "user_a = AList.update (py ''exp'') (JInt (timegm (0 + timedelta_minutes 60)))
              (map (\<lambda>(k, v). (k, JStr v)) [(py ''email'', py ''a@x.com'')])"
  "user_a = AList.update (py ''exp'') (JInt (timegm (700000 + timedelta_minutes 60)))
              (map (\<lambda>(k, v). (k, JStr v)) [(py ''email'', py ''a@x.com'')])"
  by (simp_all add: user_a_def timegm_def timedelta_minutes_def py_def)

lemma example_reserved:
  "py ''iat'' \<notin> fst ` set [(py ''email'', py ''a@x.com'')]"
  "py ''nbf'' \<notin> fst ` set [(py ''email'', py ''a@x.com'')]"
  "py ''aud'' \<notin> fst ` set [(py ''email'', py ''a@x.com'')]"
  "py ''at_hash'' \<notin> fst ` set [(py ''email'', py ''a@x.com'')]"
  by (simp_all add: py_def)

text \<open>
  Claim C2 says that a token issued with the default lifetime and verified at once
  returns the original claims. As stated it fails: what \<open>decode_access_token\<close> returns
  is the payload of the token, which holds the expiry that \<open>create_access_token\<close> added
  under \<open>exp\<close> beside the original claims.
\<close>

theorem C2_counterexample:
  "decode_access_token example_jose
     (create_access_token example_jose [(py ''email'', py ''a@x.com'')] None 0) 0
   = Inr (Some [(py ''email'', JStr (py ''a@x.com'')), (py ''exp'', JInt 3600)])
   \<and> [(py ''email'', JStr (py ''a@x.com'')), (py ''exp'', JInt 3600)]
       \<noteq> [(py ''email'', JStr (py ''a@x.com''))]"
  using decode_issued [OF example_codec(1) example_claims(1) example_codec(2) example_reserved,
      of 0]
  by (simp add: user_a_def timegm_def timedelta_minutes_def)

text \<open>
  The amended claim on the example, for a token issued 0.7 seconds after the epoch
  (\<open>exp\<close> is 3600): verified at once; verified at 3600.9 seconds, after the expiry but
  within its second; verified at 3601 seconds.
\<close>

theorem C2_witness:
  "json_loads example_jose (json_dumps example_jose (jose_header ALGORITHM))
     = Some (jose_header ALGORITHM)
   \<and> json_loads example_jose (json_dumps example_jose (JDict user_a)) = Some (JDict user_a)
   \<and> py ''iat'' \<notin> fst ` set [(py ''email'', py ''a@x.com'')]
   \<and> py ''nbf'' \<notin> fst ` set [(py ''email'', py ''a@x.com'')]
   \<and> py ''aud'' \<notin> fst ` set [(py ''email'', py ''a@x.com'')]
   \<and> py ''at_hash'' \<notin> fst ` set [(py ''email'', py ''a@x.com'')]
   \<and> decode_access_token example_jose
        (create_access_token example_jose [(py ''email'', py ''a@x.com'')] None 700000) 700000
       = Inr (Some user_a)
   \<and> decode_access_token example_jose
        (create_access_token example_jose [(py ''email'', py ''a@x.com'')] None 700000) 3600900000
       = Inr (Some user_a)
   \<and> decode_access_token example_jose
        (create_access_token example_jose [(py ''email'', py ''a@x.com'')] None 700000) 3601000000
       = Inr None"
proof -
  note c2 = C2_issued_token_round_trip [OF example_codec(1) example_claims(2) example_codec(2)
      example_reserved]
  have e: "timegm (700000 + timedelta_minutes 60) = 3600"
    by (simp add: timegm_def timedelta_minutes_def)
  have "timegm 3600900000 \<le> timegm (700000 + timedelta_minutes 60)"
    by (simp add: e) (simp add: timegm_def)
  moreover have "timegm (700000 + timedelta_minutes 60) < timegm 3601000000"
    by (simp add: e) (simp add: timegm_def)
  ultimately show ?thesis
    using c2 example_codec example_reserved by blast
qed

section \<open>Session tokens: what is refused\<close>

















end
